theory Spec2Isabelle
  imports Complex_Main "HOL-Library.Log_Nat" "HOL-Library.Sublist"
begin

section \<open>Numbers\<close>

text \<open>
  The numbers of the program are Python ints and floats: the step distances and the
  coordinates come out of a JSON document, \<^verbatim>\<open>1609.34\<close> is a float literal, the accumulator
  starts as the int \<^verbatim>\<open>0\<close> and is a float from the first addition on, and
  \<^verbatim>\<open>interval_miles\<close> is the int \<^verbatim>\<open>25\<close> in \<^verbatim>\<open>main\<close> and may be a float elsewhere. Every finite
  Python number is a rational, and is modelled as the rational it denotes. A float
  operation computes the exact result and rounds it to the nearest binary64 value, ties
  to the even significand; the rounding is a parameter \<open>fl\<close> of the arithmetic, so that
  the same loop can be read with CPython's arithmetic (\<open>fl = binary64\<close>) and with exact
  arithmetic (\<open>fl = exact\<close>). Infinities and NaN are not modelled: \<open>binary64\<close> has the
  least exponent of the format (subnormals included) and no largest value, where from
  about \<open>1.8e308\<close> on CPython yields \<^verbatim>\<open>inf\<close>, or raises \<^verbatim>\<open>OverflowError\<close> when it converts an
  int. Numbers of that size are outside the model.
\<close>

definition round_half_even :: "rat \<Rightarrow> int" where
  "round_half_even x =
     (let n = \<lfloor>x\<rfloor>; r = x - of_int n
      in if r < 1 / 2 then n else if 1 / 2 < r then n + 1 else if even n then n else n + 1)"

definition float_exponent :: "rat \<Rightarrow> int" where
  \<comment> \<open>for \<open>0 < x\<close>, the \<open>e\<close> with \<open>2 powi e \<le> x < 2 powi (e + 1)\<close>\<close>
  "float_exponent x = (if 1 \<le> x then bitlen \<lfloor>x\<rfloor> - 1 else - bitlen (\<lceil>1 / x\<rceil> - 1))"

definition binary64_ulp :: "rat \<Rightarrow> rat" where
  \<comment> \<open>the spacing of the binary64 values around \<open>x\<close>: 53 significant bits, least exponent -1022\<close>
  "binary64_ulp x = 2 powi (max (float_exponent \<bar>x\<bar>) (- 1022) - 52)"

definition binary64 :: "rat \<Rightarrow> rat" where
  "binary64 x =
     (if x = 0 then 0 else of_int (round_half_even (x / binary64_ulp x)) * binary64_ulp x)"

definition exact :: "rat \<Rightarrow> rat" where
  "exact x = x"

section \<open>The route and its waypoints\<close>

datatype py_error = IndexError | ValueError | EOFError

type_synonym location = "rat \<times> rat"

text \<open>
  The directions document, as far as \<^verbatim>\<open>calculate_waypoints\<close> reads it:
  \<^verbatim>\<open>route['routes'][0]['legs']\<close>, \<^verbatim>\<open>leg['steps']\<close>, \<^verbatim>\<open>step['distance']['value']\<close> and
  \<^verbatim>\<open>step['end_location']['lat']\<close>, \<^verbatim>\<open>['lng']\<close>. A document that lacks one of these keys is
  outside the type; a document with no route at all is inside (\<open>routes = []\<close>).
\<close>

record step =
  distance_value :: rat
  end_location :: location

record leg =
  steps :: "step list"

record route_entry =
  legs :: "leg list"

record directions =
  routes :: "route_entry list"

record Route =
  startloc :: string
  endloc :: string
  waypoints :: "location list"

definition Route_init :: "string \<Rightarrow> string \<Rightarrow> Route" where
  "Route_init start end = \<lparr>startloc = start, endloc = end, waypoints = []\<rparr>"

definition step_distance :: "(rat \<Rightarrow> rat) \<Rightarrow> step \<Rightarrow> rat" where
  \<comment> \<open>\<^verbatim>\<open>step['distance']['value'] / 1609.34\<close>\<close>
  "step_distance fl s = fl (fl (distance_value s) / fl (160934 / 100))"

text \<open>
  The body of the inner loop, on the pair of \<^verbatim>\<open>self.waypoints\<close> and
  \<^verbatim>\<open>accumulated_distance\<close>. The test is a single \<^verbatim>\<open>if\<close>: a step appends at most one
  waypoint. Python compares a float with an int by value, so the comparison is exact;
  the subtraction converts an int \<^verbatim>\<open>interval_miles\<close> to a float first.
\<close>

fun visit_step :: "(rat \<Rightarrow> rat) \<Rightarrow> rat \<Rightarrow> location list \<times> rat \<Rightarrow> step \<Rightarrow> location list \<times> rat" where
  "visit_step fl interval_miles (wps, accumulated_distance) s =
     (let accumulated_distance = fl (accumulated_distance + step_distance fl s)
      in if accumulated_distance \<ge> interval_miles
         then (wps @ [end_location s], fl (accumulated_distance - fl interval_miles))
         else (wps, accumulated_distance))"

definition visit_leg :: "(rat \<Rightarrow> rat) \<Rightarrow> rat \<Rightarrow> location list \<times> rat \<Rightarrow> leg \<Rightarrow> location list \<times> rat" where
  "visit_leg fl interval_miles st l = foldl (visit_step fl interval_miles) st (steps l)"

text \<open>
  The method overwrites \<^verbatim>\<open>self.waypoints\<close> with the empty list before it reads the route,
  and returns nothing: its result is the object. \<^verbatim>\<open>route['routes'][0]\<close> raises
  \<^verbatim>\<open>IndexError\<close> on a document without routes; nothing catches it, and the object is not
  looked at again.
\<close>

definition calculate_waypoints_with ::
  "(rat \<Rightarrow> rat) \<Rightarrow> Route \<Rightarrow> directions \<Rightarrow> rat \<Rightarrow> py_error + Route" where
  "calculate_waypoints_with fl self route interval_miles =
     (case routes route of
        [] \<Rightarrow> Inl IndexError
      | r # _ \<Rightarrow>
          Inr (self\<lparr>waypoints := fst (foldl (visit_leg fl interval_miles) ([], 0) (legs r))\<rparr>))"

definition calculate_waypoints :: "Route \<Rightarrow> directions \<Rightarrow> rat \<Rightarrow> py_error + Route" where
  "calculate_waypoints = calculate_waypoints_with binary64"

definition route_steps :: "route_entry \<Rightarrow> step list" where
  \<comment> \<open>the steps of all legs, in the order the two nested loops visit them\<close>
  "route_steps r = concat (map steps (legs r))"


definition rounding :: "(rat \<Rightarrow> rat) \<Rightarrow> bool" where
  "rounding fl \<longleftrightarrow>
     fl 0 = 0 \<and> (\<forall>x y. x \<le> y \<longrightarrow> fl x \<le> fl y) \<and> (\<forall>x. fl (fl x) = fl x)"



section \<open>The providers, the console and the run\<close>

text \<open>
  The program talks to two HTTP providers and to the console. A request is what
  determines it (the percent-encoding of the two addresses and the formatting of the
  query string are left to the transport); a response is its status code and its parsed
  body, a directions document or the \<^verbatim>\<open>results\<close> list of a nearby search. The world
  answers a nearby search by the request and by the number of nearby searches made
  before it, so that the same waypoint may be answered differently at each call. What the
  program does to the world is the list of its events, in order: the prompts it reads an
  answer to, the lines it prints and the requests it sends. The answers at the console are
  the lines of \<open>stdin\<close>; Python's conversion of a string to a float is a parameter of the
  world, with \<open>None\<close> where it raises \<^verbatim>\<open>ValueError\<close>. The values of a POI record are
  strings.
\<close>

datatype request =
    DirectionsGet string string string
  | NearbySearchGet location rat string string

record 'a response =
  status_code :: int
  json :: 'a

type_synonym poi = "string \<rightharpoonup> string"

datatype event = Input string | Print string | Get request

record world =
  stdin :: "string list"
  float_of_string :: "string \<Rightarrow> rat option"
  directions_api :: "request \<Rightarrow> directions response"
  places_api :: "nat \<Rightarrow> request \<Rightarrow> poi list response"

primrec requests :: "event list \<Rightarrow> request list" where
  "requests [] = []"
| "requests (e # es) = (case e of Get r \<Rightarrow> r # requests es | _ \<Rightarrow> requests es)"

primrec printed :: "event list \<Rightarrow> string list" where
  "printed [] = []"
| "printed (e # es) = (case e of Print l \<Rightarrow> l # printed es | _ \<Rightarrow> printed es)"

fun str_nat :: "nat \<Rightarrow> string" where
  "str_nat n =
     (if n < 10 then [''0123456789'' ! n]
      else str_nat (n div 10) @ [''0123456789'' ! (n mod 10)])"

declare str_nat.simps [simp del]

definition str_int :: "int \<Rightarrow> string" where
  "str_int i = (if i < 0 then ''-'' @ str_nat (nat (- i)) else str_nat (nat i))"

record UserInputs =
  ui_startloc :: string
  ui_endloc :: string
  ui_keyword :: string
  ui_distoffpath :: rat

definition input :: "world \<Rightarrow> nat \<Rightarrow> py_error + string" where
  \<comment> \<open>the answer to the \<open>n\<close>-th prompt\<close>
  "input w n = (if n < length (stdin w) then Inr (stdin w ! n) else Inl EOFError)"

definition float :: "world \<Rightarrow> string \<Rightarrow> py_error + rat" where
  "float w s = (case float_of_string w s of None \<Rightarrow> Inl ValueError | Some x \<Rightarrow> Inr x)"

definition UserInputs_init :: "world \<Rightarrow> event list \<times> (py_error + UserInputs)" where
  "UserInputs_init w =
     (case input w 0 of
        Inl e \<Rightarrow> ([Input ''Enter the starting location: ''], Inl e)
      | Inr start \<Rightarrow>
     (case input w 1 of
        Inl e \<Rightarrow> ([Input ''Enter the starting location: '',
                  Input ''Enter the ending location: ''], Inl e)
      | Inr end \<Rightarrow>
     (case input w 2 of
        Inl e \<Rightarrow> ([Input ''Enter the starting location: '',
                  Input ''Enter the ending location: '',
                  Input ''Enter the search keyword (e.g., 'antique stores', 'national parks'): ''],
                 Inl e)
      | Inr kw \<Rightarrow>
          ([Input ''Enter the starting location: '',
            Input ''Enter the ending location: '',
            Input ''Enter the search keyword (e.g., 'antique stores', 'national parks'): '',
            Input ''Enter the maximum distance willing to go off the path (in miles): ''],
           case input w 3 of
             Inl e \<Rightarrow> Inl e
           | Inr d \<Rightarrow>
               (case float w d of
                  Inl e \<Rightarrow> Inl e
                | Inr x \<Rightarrow>
                    Inr \<lparr>ui_startloc = start, ui_endloc = end, ui_keyword = kw,
                         ui_distoffpath = x\<rparr>)))))"

definition fetch_route :: "world \<Rightarrow> Route \<Rightarrow> string \<Rightarrow> event list \<times> directions option" where
  "fetch_route w self api_key =
     (let request = DirectionsGet (startloc self) (endloc self) api_key;
          response = directions_api w request
      in if status_code response = 200 then ([Get request], Some (json response))
         else ([Get request,
                Print (''Error fetching route: '' @ str_int (status_code response))], None))"

record POIloc =
  poi_waypoints :: "location list"
  poi_api_key :: string
  poi_keyword :: string
  poi_distoffpath :: rat

definition nearby_request :: "POIloc \<Rightarrow> location \<Rightarrow> request" where
  "nearby_request self location =
     NearbySearchGet location (poi_distoffpath self) (poi_keyword self) (poi_api_key self)"

definition search_nearby :: "world \<Rightarrow> POIloc \<Rightarrow> nat \<Rightarrow> location \<Rightarrow> poi list \<times> event list" where
  "search_nearby w self n location =
     (let request = nearby_request self location;
          response = places_api w n request
      in if status_code response = 200 then (json response, [Get request])
         else ([], [Get request,
                    Print (''Error fetching POIs: '' @ str_int (status_code response))]))"

fun search_waypoint ::
  "world \<Rightarrow> POIloc \<Rightarrow> poi list \<times> event list \<times> nat \<Rightarrow> location \<Rightarrow> poi list \<times> event list \<times> nat" where
  "search_waypoint w self (poi_results, ev, n) waypoint =
     (case search_nearby w self n waypoint of
        (results, ev') \<Rightarrow> (poi_results @ results, ev @ ev', Suc n))"

definition search_waypoints :: "world \<Rightarrow> POIloc \<Rightarrow> poi list \<times> event list" where
  "search_waypoints w self =
     (case foldl (search_waypoint w self) ([], [], 0) (poi_waypoints self) of
        (poi_results, ev, n) \<Rightarrow> (poi_results, ev))"

definition truthy :: "string option \<Rightarrow> bool" where
  "truthy a = (case a of None \<Rightarrow> False | Some s \<Rightarrow> s \<noteq> [])"

definition collect_inputs ::
  "world \<Rightarrow> string option \<Rightarrow> string option \<Rightarrow> string option \<Rightarrow> string option
     \<Rightarrow> event list \<times> (py_error + UserInputs)" where
  "collect_inputs w startloc_arg endloc_arg keyword distoffpath =
     (if \<not> (truthy startloc_arg \<and> truthy endloc_arg \<and> truthy keyword \<and> truthy distoffpath)
      then UserInputs_init w
      else (case (startloc_arg, endloc_arg, keyword, distoffpath) of
              (Some start, Some end, Some kw, Some d) \<Rightarrow>
                ([], case float w d of
                       Inl e \<Rightarrow> Inl e
                     | Inr x \<Rightarrow>
                         Inr \<lparr>ui_startloc = start, ui_endloc = end, ui_keyword = kw,
                              ui_distoffpath = x\<rparr>)
            | _ \<Rightarrow> UserInputs_init w))"

definition print_results :: "poi list \<Rightarrow> event list" where
  "print_results poi_results =
     map (\<lambda>poi. Print (case poi ''name'' of None \<Rightarrow> ''No name available'' | Some name \<Rightarrow> name))
       poi_results"

definition main ::
  "world \<Rightarrow> string \<Rightarrow> string option \<Rightarrow> string option \<Rightarrow> string option \<Rightarrow> string option
     \<Rightarrow> event list \<times> py_error option" where
  "main w api_key startloc_arg endloc_arg keyword distoffpath =
     (case collect_inputs w startloc_arg endloc_arg keyword distoffpath of
        (ev0, Inl e) \<Rightarrow> (ev0, Some e)
      | (ev0, Inr ui) \<Rightarrow>
          (let route = Route_init (ui_startloc ui) (ui_endloc ui)
           in case fetch_route w route api_key of
                (ev1, None) \<Rightarrow> (ev0 @ ev1 @ [Print ''Failed to fetch route data.''], None)
              | (ev1, Some route_data) \<Rightarrow>
                  (case calculate_waypoints route route_data 25 of
                     Inl e \<Rightarrow> (ev0 @ ev1, Some e)
                   | Inr route \<Rightarrow>
                       (let poi_lookup =
                              \<lparr>poi_waypoints = waypoints route, poi_api_key = api_key,
                               poi_keyword = ui_keyword ui,
                               poi_distoffpath =
                                 binary64 (ui_distoffpath ui * binary64 (160934 / 100))\<rparr>
                        in case search_waypoints w poi_lookup of
                             (poi_results, ev2) \<Rightarrow>
                               (ev0 @ ev1 @ ev2 @ print_results poi_results, None)))))"

section \<open>The binary64 rounding\<close>

text \<open>
  The exponent of a positive rational, the monotonicity of the rounding, and the values
  it leaves unchanged.
\<close>

lemma bitlen_pos: "0 < n \<Longrightarrow> 1 \<le> bitlen n"
  using bitlen_eq_zero_iff [of n] bitlen_nonneg [of n] by linarith

lemma float_exponent_lower:
  assumes "0 < x"
  shows "2 powi float_exponent x \<le> x"
proof (cases "1 \<le> x")
  case True
  let ?n = "\<lfloor>x\<rfloor>"
  have n: "0 < ?n" using True by simp
  have b: "1 \<le> bitlen ?n" using n by (rule bitlen_pos)
  have "(2::int) ^ nat (bitlen ?n - 1) \<le> ?n" using bitlen_bounds [OF n] by simp
  then have "(of_int ((2::int) ^ nat (bitlen ?n - 1)) :: rat) \<le> of_int ?n"
    by (simp only: of_int_le_iff)
  also have "\<dots> \<le> x" by simp
  finally have "(2::rat) ^ nat (bitlen ?n - 1) \<le> x" by simp
  then show ?thesis using True b by (simp add: float_exponent_def power_int_def)
next
  case False
  let ?y = "1 / x"
  let ?n = "\<lceil>?y\<rceil> - 1"
  have y: "1 < ?y" using False assms by simp
  have n: "0 < ?n" using y by linarith
  have b: "1 \<le> bitlen ?n" using n by (rule bitlen_pos)
  have "?n < 2 ^ nat (bitlen ?n)" using bitlen_bounds [OF n] by simp
  then have "\<lceil>?y\<rceil> \<le> 2 ^ nat (bitlen ?n)" by simp
  then have "(of_int \<lceil>?y\<rceil> :: rat) \<le> of_int (2 ^ nat (bitlen ?n))"
    by (simp only: of_int_le_iff)
  then have "(of_int \<lceil>?y\<rceil> :: rat) \<le> 2 ^ nat (bitlen ?n)" by simp
  with le_of_int_ceiling [of ?y] have "?y \<le> 2 ^ nat (bitlen ?n)" by (rule order_trans)
  then have "1 \<le> 2 ^ nat (bitlen ?n) * x" using assms by (simp add: field_simps)
  then have "1 / 2 ^ nat (bitlen ?n) \<le> x" by (simp add: field_simps)
  then show ?thesis using False b
    by (simp add: float_exponent_def power_int_def power_inverse [symmetric] inverse_eq_divide power_one_over)
qed

lemma float_exponent_upper:
  assumes "0 < x"
  shows "x < 2 powi (float_exponent x + 1)"
proof (cases "1 \<le> x")
  case True
  let ?n = "\<lfloor>x\<rfloor>"
  have n: "0 < ?n" using True by simp
  have b: "1 \<le> bitlen ?n" using n by (rule bitlen_pos)
  have "?n < 2 ^ nat (bitlen ?n)" using bitlen_bounds [OF n] by simp
  then have "?n + 1 \<le> 2 ^ nat (bitlen ?n)" by simp
  then have "(of_int (?n + 1) :: rat) \<le> of_int (2 ^ nat (bitlen ?n))"
    by (simp only: of_int_le_iff)
  moreover have "x < of_int (?n + 1)" by simp linarith
  ultimately have "x < 2 ^ nat (bitlen ?n)" by simp
  then show ?thesis using True b by (simp add: float_exponent_def power_int_def)
next
  case False
  let ?y = "1 / x"
  let ?n = "\<lceil>?y\<rceil> - 1"
  have y: "1 < ?y" using False assms by simp
  have n: "0 < ?n" using y by linarith
  have b: "1 \<le> bitlen ?n" using n by (rule bitlen_pos)
  have "(2::int) ^ nat (bitlen ?n - 1) \<le> ?n" using bitlen_bounds [OF n] by simp
  then have "(of_int ((2::int) ^ nat (bitlen ?n - 1)) :: rat) \<le> of_int ?n"
    by (simp only: of_int_le_iff)
  moreover have "of_int ?n < ?y" by simp linarith
  ultimately have "2 ^ nat (bitlen ?n - 1) < ?y" by simp
  then have "2 ^ nat (bitlen ?n - 1) * x < 1" using assms by (simp add: field_simps)
  then have "x < 1 / 2 ^ nat (bitlen ?n - 1)" by (simp add: field_simps)
  moreover have "2 powi (float_exponent x + 1) = (1::rat) / 2 ^ nat (bitlen ?n - 1)"
  proof (cases "bitlen ?n = 1")
    case True
    then show ?thesis using False by (simp add: float_exponent_def)
  next
    case F: False
    with b have "1 < bitlen ?n" by simp
    then show ?thesis using False
      by (simp add: float_exponent_def power_int_def power_one_over inverse_eq_divide)
  qed
  ultimately show ?thesis by simp
qed

lemma pow2_less_cancel:
  assumes "(2::rat) powi a < 2 powi b"
  shows "a < b"
proof (rule ccontr)
  assume "\<not> a < b"
  then have "b \<le> a" by simp
  then have "(2::rat) powi b \<le> 2 powi a" by (rule power_int_increasing) simp
  with assms show False by simp
qed

lemma float_exponent_unique:
  assumes "2 powi e \<le> x" "x < 2 powi (e + 1)"
  shows "float_exponent x = e"
proof -
  have "(0::rat) < 2 powi e" by simp
  from this assms(1) have x: "0 < x" by (rule less_le_trans)
  have "(2::rat) powi float_exponent x < 2 powi (e + 1)"
    using float_exponent_lower [OF x] assms(2) by simp
  then have 1: "float_exponent x < e + 1" by (rule pow2_less_cancel)
  have "(2::rat) powi e < 2 powi (float_exponent x + 1)"
    using float_exponent_upper [OF x] assms(1) by simp
  then have "e < float_exponent x + 1" by (rule pow2_less_cancel)
  with 1 show ?thesis by simp
qed


lemma round_half_even_of_int [simp]: "round_half_even (of_int n) = n"
  by (simp add: round_half_even_def)

lemma round_half_even_range:
  "\<lfloor>x\<rfloor> \<le> round_half_even x" "round_half_even x \<le> \<lfloor>x\<rfloor> + 1"
  by (simp_all add: round_half_even_def Let_def)

lemma round_half_even_mono:
  assumes "x \<le> y"
  shows "round_half_even x \<le> round_half_even y"
proof (cases "\<lfloor>x\<rfloor> = \<lfloor>y\<rfloor>")
  case True
  have "x - of_int \<lfloor>x\<rfloor> \<le> y - of_int \<lfloor>x\<rfloor>" using assms by simp
  then show ?thesis using True by (auto simp add: round_half_even_def Let_def)
next
  case False
  have "\<lfloor>x\<rfloor> \<le> \<lfloor>y\<rfloor>" using assms by (rule floor_mono)
  with False have "\<lfloor>x\<rfloor> + 1 \<le> \<lfloor>y\<rfloor>" by simp
  with round_half_even_range(2) [of x] round_half_even_range(1) [of y]
  show ?thesis by linarith
qed

lemma round_half_even_minus: "round_half_even (- x) = - round_half_even x"
proof (cases "x = of_int \<lfloor>x\<rfloor>")
  case True
  then obtain n where "x = of_int n" ..
  then have "- x = of_int (- n)" by simp
  then show ?thesis using \<open>x = of_int n\<close> by (simp only: round_half_even_of_int)
next
  case False
  then have lt: "of_int \<lfloor>x\<rfloor> < x" using of_int_floor_le [of x] by (auto simp add: less_le)
  have "x < of_int \<lfloor>x\<rfloor> + 1" by linarith
  then have fl: "\<lfloor>- x\<rfloor> = - \<lfloor>x\<rfloor> - 1" using lt by (intro floor_unique) simp_all
  show ?thesis
    using lt by (auto simp add: round_half_even_def Let_def fl)
qed

lemma binary64_ulp_pos [simp]: "0 < binary64_ulp x"
  by (simp add: binary64_ulp_def)

lemma binary64_ulp_nonneg [simp]: "0 \<le> binary64_ulp x"
  by (simp add: binary64_ulp_def)

lemma binary64_ulp_minus [simp]: "binary64_ulp (- x) = binary64_ulp x"
  by (simp add: binary64_ulp_def)

lemma binary64_zero [simp]: "binary64 0 = 0"
  by (simp add: binary64_def)

lemma binary64_minus: "binary64 (- x) = - binary64 x"
  by (simp add: binary64_def round_half_even_minus)

lemma pow2_split: "(2::rat) powi (e + 1) = 2 ^ 53 * 2 powi (e - 52)"
proof -
  have "e + 1 = 53 + (e - 52)" by simp
  then have "(2::rat) powi (e + 1) = 2 powi (53 + (e - 52))" by (simp only:)
  also have "\<dots> = 2 powi 53 * 2 powi (e - 52)" by (rule power_int_add) simp
  finally show ?thesis by simp
qed







lemma binary64_significand:
  assumes "0 < x"
  shows "0 \<le> round_half_even (x / binary64_ulp x)"
    and "round_half_even (x / binary64_ulp x) \<le> 2 ^ 53"
proof -
  define E where "E = max (float_exponent x) (- 1022)"
  have u: "binary64_ulp x = 2 powi (E - 52)" using assms(1) by (simp add: binary64_ulp_def E_def)
  have "0 \<le> x / binary64_ulp x" using assms binary64_ulp_pos [of x] by (intro divide_nonneg_pos) simp_all
  then have "round_half_even 0 \<le> round_half_even (x / binary64_ulp x)"
    by (rule round_half_even_mono)
  then show "0 \<le> round_half_even (x / binary64_ulp x)" by (simp add: round_half_even_def)
  have "x < 2 powi (float_exponent x + 1)" using assms(1) by (rule float_exponent_upper)
  also have "\<dots> \<le> 2 powi (E + 1)" by (rule power_int_increasing) (simp_all add: E_def)
  finally have "x < 2 ^ 53 * 2 powi (E - 52)" by (simp only: pow2_split)
  then have "x / binary64_ulp x \<le> of_int (2 ^ 53)" by (simp add: u field_simps)
  then have "round_half_even (x / binary64_ulp x) \<le> round_half_even (of_int (2 ^ 53))"
    by (rule round_half_even_mono)
  then show "round_half_even (x / binary64_ulp x) \<le> 2 ^ 53" by (simp only: round_half_even_of_int)
qed

lemma binary64_representable_less:
  assumes "0 < m" "m < 2 ^ 53" "- 1022 \<le> E"
  shows "binary64 (of_int m * 2 powi (E - 52)) = of_int m * 2 powi (E - 52)"
proof -
  define r :: rat where "r = of_int m * 2 powi (E - 52)"
  define Er where "Er = max (float_exponent r) (- 1022)"
  have r: "0 < r" using assms(1) by (simp add: r_def)
  have "(of_int m :: rat) < of_int (2 ^ 53)" using assms(2) by (simp only: of_int_less_iff)
  then have "r < 2 ^ 53 * 2 powi (E - 52)" by (simp add: r_def)
  then have "r < 2 powi (E + 1)" by (simp only: pow2_split [symmetric])
  with float_exponent_lower [OF r] have "(2::rat) powi float_exponent r < 2 powi (E + 1)" by simp
  then have "float_exponent r < E + 1" by (rule pow2_less_cancel)
  then have le: "Er \<le> E" using assms(3) by (simp add: Er_def)
  have u: "binary64_ulp r = 2 powi (Er - 52)" using r by (simp add: binary64_ulp_def Er_def)
  have "(2::rat) powi (E - 52) = 2 powi ((E - Er) + (Er - 52))" by simp
  also have "\<dots> = 2 powi (E - Er) * 2 powi (Er - 52)" by (rule power_int_add) simp
  also have "(2::rat) powi (E - Er) = 2 ^ nat (E - Er)" using le by (simp add: power_int_def)
  finally have q: "(2::rat) powi (E - 52) = 2 ^ nat (E - Er) * 2 powi (Er - 52)" .
  have rq: "r = of_int (m * 2 ^ nat (E - Er)) * 2 powi (Er - 52)" by (simp add: r_def q)
  have "r / binary64_ulp r = r / 2 powi (Er - 52)" by (simp only: u)
  also have "\<dots> = of_int (m * 2 ^ nat (E - Er))" by (subst rq) simp
  finally have "r / binary64_ulp r = of_int (m * 2 ^ nat (E - Er))" .
  then have "round_half_even (r / binary64_ulp r) = m * 2 ^ nat (E - Er)"
    by (simp only: round_half_even_of_int)
  then have "binary64 r = of_int (m * 2 ^ nat (E - Er)) * 2 powi (Er - 52)"
    using r by (simp add: binary64_def u)
  also have "\<dots> = r" by (rule rq [symmetric])
  finally show ?thesis by (simp only: r_def)
qed

lemma binary64_representable:
  assumes "0 \<le> m" "m \<le> 2 ^ 53" "- 1022 \<le> E"
  shows "binary64 (of_int m * 2 powi (E - 52)) = of_int m * 2 powi (E - 52)"
proof -
  consider "m = 0" | "0 < m" "m < 2 ^ 53" | "m = 2 ^ 53" using assms(1,2) by linarith
  then show ?thesis
  proof cases
    case 1
    then show ?thesis by simp
  next
    case 2
    then show ?thesis using assms(3) by (rule binary64_representable_less)
  next
    case 3
    have "(2::rat) powi (E + 1 - 52) = 2 powi (1 + (E - 52))" by (simp add: algebra_simps)
    also have "\<dots> = 2 powi 1 * 2 powi (E - 52)" by (rule power_int_add) simp
    finally have "of_int m * 2 powi (E - 52) = (of_int (2 ^ 52) :: rat) * 2 powi (E + 1 - 52)"
      by (simp add: 3)
    moreover have "binary64 (of_int (2 ^ 52) * 2 powi (E + 1 - 52)) = of_int (2 ^ 52) * 2 powi (E + 1 - 52)"
      using assms(3) by (intro binary64_representable_less) simp_all
    ultimately show ?thesis by simp
  qed
qed

lemma binary64_idem: "binary64 (binary64 x) = binary64 x"
proof -
  have pos: "binary64 (binary64 x) = binary64 x" if "0 < x" for x
  proof -
    define E where "E = max (float_exponent x) (- 1022)"
    have u: "binary64_ulp x = 2 powi (E - 52)" using that by (simp add: binary64_ulp_def E_def)
    have b: "binary64 x = of_int (round_half_even (x / binary64_ulp x)) * 2 powi (E - 52)"
      using that by (simp add: binary64_def u)
    show ?thesis unfolding b
      using binary64_significand [OF that] by (intro binary64_representable) (simp_all add: E_def)
  qed
  consider "x = 0" | "0 < x" | "0 < - x" by linarith
  then show ?thesis
  proof cases
    case 1
    then show ?thesis by simp
  next
    case 2
    then show ?thesis by (rule pos)
  next
    case 3
    from pos [OF 3] show ?thesis by (simp add: binary64_minus)
  qed
qed

text \<open>
  Rounding at concrete numbers: a value that is within half a unit of an integer
  significand rounds to it, and integers up to \<open>2 ^ 53\<close> round to themselves.
\<close>

lemma round_half_even_nearest:
  assumes "\<bar>y - of_int m\<bar> < 1 / 2"
  shows "round_half_even y = m"
proof -
  from assms have lo: "of_int m - 1 / 2 < y" and hi: "y < of_int m + 1 / 2" by linarith+
  show ?thesis
  proof (cases "of_int m \<le> y")
    case True
    have "\<lfloor>y\<rfloor> = m" using True hi by (intro floor_unique) simp_all
    then show ?thesis using hi by (simp add: round_half_even_def Let_def)
  next
    case False
    have "\<lfloor>y\<rfloor> = m - 1" using False lo by (intro floor_unique) simp_all
    then show ?thesis using lo by (simp add: round_half_even_def Let_def)
  qed
qed

lemma binary64_nearest:
  assumes "- 1022 \<le> e" "2 powi e \<le> x" "x < 2 powi (e + 1)"
    and "\<bar>x / 2 powi (e - 52) - of_int m\<bar> < 1 / 2"
  shows "binary64 x = of_int m * 2 powi (e - 52)"
proof -
  have "(0::rat) < 2 powi e" by simp
  from this assms(2) have x: "0 < x" by (rule less_le_trans)
  have "float_exponent x = e" using assms(2,3) by (rule float_exponent_unique)
  then have u: "binary64_ulp x = 2 powi (e - 52)" using x assms(1) by (simp add: binary64_ulp_def)
  have "round_half_even (x / binary64_ulp x) = m"
    unfolding u using assms(4) by (rule round_half_even_nearest)
  then show ?thesis using x by (simp add: binary64_def u)
qed

lemma binary64_of_int:
  assumes "\<bar>n\<bar> \<le> 2 ^ 53"
  shows "binary64 (of_int n) = of_int n"
proof -
  have pos: "binary64 (of_int k) = of_int k" if "0 \<le> k" "k \<le> 2 ^ 53" for k
    using binary64_representable [OF that, of 52] by simp
  show ?thesis
  proof (cases "0 \<le> n")
    case True
    then show ?thesis using assms by (intro pos) simp_all
  next
    case False
    then have "binary64 (of_int (- n)) = of_int (- n)" using assms by (intro pos) simp_all
    then show ?thesis by (simp add: binary64_minus)
  qed
qed

lemma binary64_numeral [simp]:
  "numeral k \<le> (2::int) ^ 53 \<Longrightarrow> binary64 (numeral k) = numeral k"
  using binary64_of_int [of "numeral k"] by simp



lemma binary64_25_miles:
  "binary64 (80467 / 2 / (7077952172180111 / 4398046511104)) = 25"
proof -
  have "binary64 (80467 / 2 / (7077952172180111 / 4398046511104))
          = of_int 7036874417766400 * 2 powi (4 - 52)"
    by (rule binary64_nearest) (simp_all add: power_int_def power_one_over)
  also have "\<dots> = 25" by (simp add: power_int_def power_one_over)
  finally show ?thesis .
qed

lemma binary64_half: "binary64 (80467 / 2) = 80467 / 2"
  using binary64_representable [of 80467 51] by (simp add: power_int_def power_one_over)

lemma binary64_1609: "binary64 (160934 / 100) = 7077952172180111 / 4398046511104"
proof -
  have "binary64 (160934 / 100) = of_int 7077952172180111 * 2 powi (10 - 52)"
    by (rule binary64_nearest) (simp_all add: power_int_def power_one_over)
  also have "\<dots> = 7077952172180111 / 4398046511104" by (simp add: power_int_def power_one_over)
  finally show ?thesis .
qed

section \<open>The sampling loop\<close>

lemma foldl_visit_leg:
  "foldl (visit_leg fl i) st ls = foldl (visit_step fl i) st (concat (map steps ls))"
  by (induction ls arbitrary: st) (simp_all add: visit_leg_def)

lemma calculate_waypoints_with_Cons:
  "routes route = r # rs \<Longrightarrow>
   calculate_waypoints_with fl self route i =
     Inr (self\<lparr>waypoints := fst (foldl (visit_step fl i) ([], 0) (route_steps r))\<rparr>)"
  by (simp add: calculate_waypoints_with_def foldl_visit_leg route_steps_def)

lemma visit_step_length:
  "length (fst (visit_step fl i st s)) \<le> Suc (length (fst st))"
  by (cases st) (simp add: Let_def)

lemma foldl_visit_step_length:
  "length (fst (foldl (visit_step fl i) st ss)) \<le> length (fst st) + length ss"
proof (induction ss arbitrary: st)
  case Nil
  show ?case by simp
next
  case (Cons s ss)
  have "length (fst (foldl (visit_step fl i) (visit_step fl i st s) ss))
          \<le> length (fst (visit_step fl i st s)) + length ss"
    by (rule Cons.IH)
  also have "\<dots> \<le> Suc (length (fst st)) + length ss"
    using visit_step_length [of fl i st s] by simp
  finally show ?case by simp
qed











lemma rounding_exact: "rounding exact"
  by (simp add: rounding_def exact_def)





lemma visit_step_subseq:
  "\<exists>ws. fst (foldl (visit_step fl i) (wps, acc) ss) = wps @ ws \<and> subseq ws (map end_location ss)"
proof (induction ss arbitrary: wps acc)
  case Nil
  show ?case by simp
next
  case (Cons s ss)
  let ?a = "fl (acc + step_distance fl s)"
  show ?case
  proof (cases "i \<le> ?a")
    case True
    from Cons.IH [of "wps @ [end_location s]" "fl (?a - fl i)"]
    obtain ws where "fst (foldl (visit_step fl i) (wps @ [end_location s], fl (?a - fl i)) ss)
                       = (wps @ [end_location s]) @ ws" "subseq ws (map end_location ss)"
      by blast
    then have "fst (foldl (visit_step fl i) (wps, acc) (s # ss)) = wps @ (end_location s # ws) \<and>
               subseq (end_location s # ws) (map end_location (s # ss))"
      using True by (simp add: Let_def)
    then show ?thesis by blast
  next
    case False
    from Cons.IH [of wps ?a]
    obtain ws where "fst (foldl (visit_step fl i) (wps, ?a) ss) = wps @ ws"
      "subseq ws (map end_location ss)"
      by blast
    then have "fst (foldl (visit_step fl i) (wps, acc) (s # ss)) = wps @ ws \<and>
               subseq ws (map end_location (s # ss))"
      using False by (simp add: Let_def list_emb_Cons)
    then show ?thesis by blast
  qed
qed

lemma step_distance_binary64:
  "step_distance binary64 s
     = binary64 (binary64 (distance_value s) / (7077952172180111 / 4398046511104))"
  by (simp only: step_distance_def binary64_1609)

lemma step_distance_fixed [simp]: "binary64 (step_distance binary64 s) = step_distance binary64 s"
  by (simp add: step_distance_def binary64_idem)


lemma calculate_waypoints_Cons:
  "routes route = r # rs \<Longrightarrow>
   calculate_waypoints self route i =
     Inr (self\<lparr>waypoints := fst (foldl (visit_step binary64 i) ([], 0) (route_steps r))\<rparr>)"
  by (simp add: calculate_waypoints_def calculate_waypoints_with_Cons)

lemma scenario_waypoints:
  "calculate_waypoints self
     \<lparr>routes = [\<lparr>legs = [\<lparr>steps = [\<lparr>distance_value = 80467 / 2, end_location = (1, 1)\<rparr>]\<rparr>]\<rparr>]\<rparr> 25
     = Inr (self\<lparr>waypoints := [(1, 1)]\<rparr>)"
proof -
  let ?s = "\<lparr>distance_value = 80467 / 2, end_location = (1, 1)\<rparr>"
  have d: "step_distance binary64 ?s = 25"
    by (simp only: step_distance_binary64 step.select_convs binary64_half binary64_25_miles)
  then have "fst (foldl (visit_step binary64 25) ([], 0) [?s]) = [(1, 1)]"
    by (simp add: Let_def)
  then show ?thesis by (simp add: calculate_waypoints_Cons route_steps_def)
qed

section \<open>The searches and the run\<close>

lemma requests_append [simp]: "requests (xs @ ys) = requests xs @ requests ys"
  by (induction xs) (simp_all split: event.splits)

lemma printed_append [simp]: "printed (xs @ ys) = printed xs @ printed ys"
  by (induction xs) (simp_all split: event.splits)

lemma requests_UserInputs_init [simp]: "requests (fst (UserInputs_init w)) = []"
  by (simp add: UserInputs_init_def split: sum.splits)

lemma printed_UserInputs_init [simp]: "printed (fst (UserInputs_init w)) = []"
  by (simp add: UserInputs_init_def split: sum.splits)

lemma requests_collect_inputs [simp]: "requests (fst (collect_inputs w a b c d)) = []"
  by (simp add: collect_inputs_def split: option.splits)

lemma printed_collect_inputs [simp]: "printed (fst (collect_inputs w a b c d)) = []"
  by (simp add: collect_inputs_def split: option.splits)

lemma requests_search_nearby [simp]:
  "requests (snd (search_nearby w self n wp)) = [nearby_request self wp]"
  by (simp add: search_nearby_def Let_def)

lemma fst_search_nearby:
  "fst (search_nearby w self n wp) =
     (if status_code (places_api w n (nearby_request self wp)) = 200
      then json (places_api w n (nearby_request self wp)) else [])"
  by (simp add: search_nearby_def Let_def)

lemma foldl_search_waypoint:
  "foldl (search_waypoint w self) (res, ev, n) wps =
     (res @ concat (map (\<lambda>(i, wp). fst (search_nearby w self i wp)) (enumerate n wps)),
      ev @ concat (map (\<lambda>(i, wp). snd (search_nearby w self i wp)) (enumerate n wps)),
      n + length wps)"
  by (induction wps arbitrary: res ev n) (simp_all split: prod.splits)

lemma search_waypoints_eq:
  "search_waypoints w self =
     (concat (map (\<lambda>(i, wp). fst (search_nearby w self i wp)) (enumerate 0 (poi_waypoints self))),
      concat (map (\<lambda>(i, wp). snd (search_nearby w self i wp)) (enumerate 0 (poi_waypoints self))))"
  by (simp add: search_waypoints_def foldl_search_waypoint)

lemma requests_concat_search:
  "requests (concat (map (\<lambda>(i, wp). snd (search_nearby w self i wp)) (enumerate n wps)))
     = map (nearby_request self) wps"
  by (induction wps arbitrary: n) simp_all

lemma concat_successful:
  "concat (map (\<lambda>(i, wp). fst (search_nearby w self i wp)) (enumerate n wps))
     = concat (map (\<lambda>(i, wp). json (places_api w i (nearby_request self wp)))
         (filter (\<lambda>(i, wp). status_code (places_api w i (nearby_request self wp)) = 200)
            (enumerate n wps)))"
  by (induction wps arbitrary: n) (simp_all add: fst_search_nearby)


section \<open>The waypoints of a route\<close>













text \<open>
  Claim C5: for the route consisting of the single step of 40233.5 meters that ends at
  \<open>(1, 1)\<close>, and \<open>interval_miles = 25\<close>, \<^verbatim>\<open>calculate_waypoints\<close> produces exactly the
  waypoint sequence \<open>[(1, 1)]\<close>: the binary64 division \<open>40233.5 / 1609.34\<close> yields 25
  and so reaches the threshold.
\<close>

theorem scenario_25_miles:
  "step_distance binary64 \<lparr>distance_value = 80467 / 2, end_location = (1, 1)\<rparr> = 25 \<and>
   calculate_waypoints self
     \<lparr>routes = [\<lparr>legs = [\<lparr>steps = [\<lparr>distance_value = 80467 / 2, end_location = (1, 1)\<rparr>]\<rparr>]\<rparr>]\<rparr> 25
     = Inr (self\<lparr>waypoints := [(1, 1)]\<rparr>)"
proof
  show "step_distance binary64 \<lparr>distance_value = 80467 / 2, end_location = (1, 1)\<rparr> = 25"
    by (simp only: step_distance_binary64 step.select_convs binary64_half binary64_25_miles)
  show "calculate_waypoints self
     \<lparr>routes = [\<lparr>legs = [\<lparr>steps = [\<lparr>distance_value = 80467 / 2, end_location = (1, 1)\<rparr>]\<rparr>]\<rparr>]\<rparr> 25
     = Inr (self\<lparr>waypoints := [(1, 1)]\<rparr>)"
    by (rule scenario_waypoints)
qed



text \<open>
  Claim C10: for every route and every \<open>interval_miles\<close>, each step contributes at most
  one waypoint, its own \<^verbatim>\<open>end_location\<close>, so the waypoint sequence produced by
  \<^verbatim>\<open>calculate_waypoints\<close> is a subsequence of the steps' end locations and never longer
  than the number of steps across all legs; and the result does not depend on the
  waypoints the object stored before the call. This holds whatever the rounding of the
  arithmetic.
\<close>

theorem at_most_one_waypoint_per_step:
  assumes "routes route = r # rs"
  shows "\<exists>wps. subseq wps (map end_location (route_steps r)) \<and>
               length wps \<le> length (route_steps r) \<and>
               (\<forall>old. calculate_waypoints_with fl (self\<lparr>waypoints := old\<rparr>) route interval_miles
                        = Inr (self\<lparr>waypoints := wps\<rparr>))"
proof -
  let ?wps = "fst (foldl (visit_step fl interval_miles) ([], 0) (route_steps r))"
  have "subseq ?wps (map end_location (route_steps r))"
    using visit_step_subseq [of fl interval_miles "[]" 0 "route_steps r"] by auto
  moreover have "length ?wps \<le> length (route_steps r)"
    using foldl_visit_step_length [of fl interval_miles "([], 0)" "route_steps r"] by simp
  moreover have "\<forall>old. calculate_waypoints_with fl (self\<lparr>waypoints := old\<rparr>) route interval_miles
                        = Inr (self\<lparr>waypoints := ?wps\<rparr>)"
    by (simp add: calculate_waypoints_with_Cons [OF assms])
  ultimately show ?thesis by blast
qed

text \<open>
  C10 at a route of one step: the call yields the same object from a stored waypoint list
  of two entries as from an empty one.
\<close>

theorem at_most_one_waypoint_per_step_witness:
  "calculate_waypoints ((Route_init ''A'' ''B'')\<lparr>waypoints := [(9, 9), (8, 8)]\<rparr>)
     \<lparr>routes = [\<lparr>legs = [\<lparr>steps = [\<lparr>distance_value = 100000, end_location = (1, 1)\<rparr>]\<rparr>]\<rparr>]\<rparr> 25
   = calculate_waypoints ((Route_init ''A'' ''B'')\<lparr>waypoints := []\<rparr>)
     \<lparr>routes = [\<lparr>legs = [\<lparr>steps = [\<lparr>distance_value = 100000, end_location = (1, 1)\<rparr>]\<rparr>]\<rparr>]\<rparr> 25"
proof -
  let ?r = "\<lparr>legs = [\<lparr>steps = [\<lparr>distance_value = 100000, end_location = (1, 1)\<rparr>]\<rparr>]\<rparr>"
  have h: "routes \<lparr>routes = [?r]\<rparr> = ?r # []" by simp
  from at_most_one_waypoint_per_step [OF h, of binary64 "Route_init ''A'' ''B''" 25]
  obtain wps where
    "\<forall>old. calculate_waypoints_with binary64 ((Route_init ''A'' ''B'')\<lparr>waypoints := old\<rparr>)
              \<lparr>routes = [?r]\<rparr> 25 = Inr ((Route_init ''A'' ''B'')\<lparr>waypoints := wps\<rparr>)"
    by blast
  then show ?thesis by (simp add: calculate_waypoints_def)
qed

section \<open>The run\<close>

text \<open>
  Claim C6: whenever the routing fetch yields a status other than 200, the run prints
  the status and the message \<^verbatim>\<open>Failed to fetch route data.\<close> and ends there, without an
  exception and whatever the body of the response: the directions request is the only
  request it sends, so no waypoint is sampled and no nearby search is made.
\<close>

theorem fetch_failure_aborts:
  assumes "collect_inputs w a b c d = (ev0, Inr ui)"
    and "status_code (directions_api w (DirectionsGet (ui_startloc ui) (ui_endloc ui) api_key)) \<noteq> 200"
  shows "main w api_key a b c d =
           (ev0 @ [Get (DirectionsGet (ui_startloc ui) (ui_endloc ui) api_key),
                   Print (''Error fetching route: '' @
                     str_int (status_code (directions_api w
                        (DirectionsGet (ui_startloc ui) (ui_endloc ui) api_key)))),
                   Print ''Failed to fetch route data.''], None) \<and>
         requests (fst (main w api_key a b c d))
           = [DirectionsGet (ui_startloc ui) (ui_endloc ui) api_key]"
proof -
  have m: "main w api_key a b c d =
           (ev0 @ [Get (DirectionsGet (ui_startloc ui) (ui_endloc ui) api_key),
                   Print (''Error fetching route: '' @
                     str_int (status_code (directions_api w
                        (DirectionsGet (ui_startloc ui) (ui_endloc ui) api_key)))),
                   Print ''Failed to fetch route data.''], None)"
    using assms by (simp add: main_def fetch_route_def Route_init_def Let_def)
  have "requests ev0 = []" using requests_collect_inputs [of w a b c d] assms(1) by simp
  then have "requests (fst (main w api_key a b c d))
           = [DirectionsGet (ui_startloc ui) (ui_endloc ui) api_key]"
    by (simp add: m)
  with m show ?thesis by (rule conjI)
qed

text \<open>
  C6 at a run that collects its inputs from the console and is answered with status 404.
\<close>

theorem fetch_failure_aborts_witness:
  "main \<lparr>stdin = [''Austin'', ''Dallas'', ''antique stores'', ''5''],
         float_of_string = (\<lambda>s. if s = ''5'' then Some 5 else None),
         directions_api = (\<lambda>r. \<lparr>status_code = 404, json = \<lparr>routes = []\<rparr>\<rparr>),
         places_api = (\<lambda>n r. \<lparr>status_code = 200, json = []\<rparr>)\<rparr>
     ''key'' None None None None
   = ([Input ''Enter the starting location: '',
       Input ''Enter the ending location: '',
       Input ''Enter the search keyword (e.g., 'antique stores', 'national parks'): '',
       Input ''Enter the maximum distance willing to go off the path (in miles): '',
       Get (DirectionsGet ''Austin'' ''Dallas'' ''key''),
       Print ''Error fetching route: 404'',
       Print ''Failed to fetch route data.''], None)"
proof -
  let ?w = "\<lparr>stdin = [''Austin'', ''Dallas'', ''antique stores'', ''5''],
         float_of_string = (\<lambda>s. if s = ''5'' then Some 5 else None),
         directions_api = (\<lambda>r. \<lparr>status_code = 404, json = \<lparr>routes = []\<rparr>\<rparr>),
         places_api = (\<lambda>n r. \<lparr>status_code = 200, json = []\<rparr>)\<rparr>"
  let ?ui = "\<lparr>ui_startloc = ''Austin'', ui_endloc = ''Dallas'', ui_keyword = ''antique stores'',
              ui_distoffpath = 5\<rparr>"
  have h1: "collect_inputs ?w None None None None
              = ([Input ''Enter the starting location: '',
                  Input ''Enter the ending location: '',
                  Input ''Enter the search keyword (e.g., 'antique stores', 'national parks'): '',
                  Input ''Enter the maximum distance willing to go off the path (in miles): ''],
                 Inr ?ui)"
    by (simp add: collect_inputs_def truthy_def UserInputs_init_def input_def float_def)
  have h2: "status_code (directions_api ?w (DirectionsGet (ui_startloc ?ui) (ui_endloc ?ui) ''key''))
              \<noteq> 200"
    by simp
  have s: "str_int 404 = ''404''" by (simp add: str_int_def str_nat.simps)
  from fetch_failure_aborts [OF h1 h2] show ?thesis by (simp add: s)
qed

text \<open>
  Claim C7: for every waypoint sequence, if the nearby search of one waypoint returns a
  status other than 200, that waypoint contributes no result, a search is still sent for
  every waypoint, in order, and the result of \<^verbatim>\<open>search_waypoints\<close> is the concatenation of
  the result lists of the searches answered with status 200, in waypoint order.
\<close>

theorem one_failed_search_skipped:
  assumes "k < length (poi_waypoints self)"
    and "status_code (places_api w k (nearby_request self (poi_waypoints self ! k))) \<noteq> 200"
  shows "fst (search_nearby w self k (poi_waypoints self ! k)) = [] \<and>
         requests (snd (search_waypoints w self)) = map (nearby_request self) (poi_waypoints self) \<and>
         fst (search_waypoints w self)
           = concat (map (\<lambda>(i, wp). json (places_api w i (nearby_request self wp)))
               (filter (\<lambda>(i, wp). status_code (places_api w i (nearby_request self wp)) = 200)
                  (enumerate 0 (poi_waypoints self))))"
proof (intro conjI)
  show "fst (search_nearby w self k (poi_waypoints self ! k)) = []"
    using assms(2) by (simp add: fst_search_nearby)
  show "requests (snd (search_waypoints w self)) = map (nearby_request self) (poi_waypoints self)"
    by (simp add: search_waypoints_eq requests_concat_search)
  show "fst (search_waypoints w self)
           = concat (map (\<lambda>(i, wp). json (places_api w i (nearby_request self wp)))
               (filter (\<lambda>(i, wp). status_code (places_api w i (nearby_request self wp)) = 200)
                  (enumerate 0 (poi_waypoints self))))"
    by (simp only: search_waypoints_eq fst_conv concat_successful)
qed

text \<open>
  C7 at three waypoints, the second answered with status 500.
\<close>

theorem one_failed_search_skipped_witness:
  "map (\<lambda>poi. poi ''name'')
     (fst (search_waypoints
        \<lparr>stdin = [], float_of_string = (\<lambda>s. None),
         directions_api = (\<lambda>r. \<lparr>status_code = 404, json = \<lparr>routes = []\<rparr>\<rparr>),
         places_api = (\<lambda>n r. if n = 1 then \<lparr>status_code = 500, json = [[''name'' \<mapsto> ''lost'']]\<rparr>
                            else \<lparr>status_code = 200,
                                  json = [[''name'' \<mapsto> (if n = 0 then ''first'' else ''third'')]]\<rparr>)\<rparr>
        \<lparr>poi_waypoints = [(1, 1), (2, 2), (3, 3)], poi_api_key = ''key'',
         poi_keyword = ''cafe'', poi_distoffpath = 8000\<rparr>))
   = [Some ''first'', Some ''third'']"
proof -
  let ?w = "\<lparr>stdin = [], float_of_string = (\<lambda>s. None),
         directions_api = (\<lambda>r. \<lparr>status_code = 404, json = \<lparr>routes = []\<rparr>\<rparr>),
         places_api = (\<lambda>n r. if n = 1 then \<lparr>status_code = 500, json = [[''name'' \<mapsto> ''lost'']]\<rparr>
                            else \<lparr>status_code = 200,
                                  json = [[''name'' \<mapsto> (if n = 0 then ''first'' else ''third'')]]\<rparr>)\<rparr>"
  let ?self = "\<lparr>poi_waypoints = [(1, 1), (2, 2), (3, 3)], poi_api_key = ''key'',
         poi_keyword = ''cafe'', poi_distoffpath = 8000\<rparr>"
  have h1: "1 < length (poi_waypoints ?self)" by simp
  have h2: "status_code (places_api ?w 1 (nearby_request ?self (poi_waypoints ?self ! 1))) \<noteq> 200"
    by simp
  from one_failed_search_skipped [OF h1 h2]
  have "fst (search_waypoints ?w ?self)
           = concat (map (\<lambda>(i, wp). json (places_api ?w i (nearby_request ?self wp)))
               (filter (\<lambda>(i, wp). status_code (places_api ?w i (nearby_request ?self wp)) = 200)
                  (enumerate 0 (poi_waypoints ?self))))"
    by blast
  then show ?thesis by simp
qed

text \<open>
  Claim C9: for every POI record in the final results exactly one line is printed, the
  record's \<^verbatim>\<open>name\<close> if it has one and \<^verbatim>\<open>No name available\<close> otherwise; these lines follow
  the error reports of the failed searches and are the last lines of the run, which ends
  without an exception.
\<close>

theorem one_line_per_poi:
  assumes "collect_inputs w a b c d = (ev0, Inr ui)"
    and "fetch_route w (Route_init (ui_startloc ui) (ui_endloc ui)) api_key = (ev1, Some route_data)"
    and "calculate_waypoints (Route_init (ui_startloc ui) (ui_endloc ui)) route_data 25 = Inr route"
    and "search_waypoints w
           \<lparr>poi_waypoints = waypoints route, poi_api_key = api_key, poi_keyword = ui_keyword ui,
            poi_distoffpath = binary64 (ui_distoffpath ui * binary64 (160934 / 100))\<rparr>
           = (poi_results, ev2)"
  shows "printed (fst (main w api_key a b c d)) =
           printed ev2 @
           map (\<lambda>poi. case poi ''name'' of None \<Rightarrow> ''No name available'' | Some name \<Rightarrow> name)
             poi_results \<and>
         snd (main w api_key a b c d) = None"
proof -
  have 0: "printed ev0 = []" using printed_collect_inputs [of w a b c d] assms(1) by simp
  have 1: "printed ev1 = []" using assms(2) by (auto simp add: fetch_route_def Let_def split: if_splits)
  have 2: "printed (print_results ps) =
             map (\<lambda>poi. case poi ''name'' of None \<Rightarrow> ''No name available'' | Some name \<Rightarrow> name) ps" for ps
    by (induction ps) (simp_all add: print_results_def)
  show ?thesis using assms by (simp add: main_def Let_def 0 1 2)
qed

text \<open>
  C9 at a run whose only search returns a named and an unnamed record.
\<close>

theorem one_line_per_poi_witness:
  "printed (fst (main
     \<lparr>stdin = [], float_of_string = (\<lambda>s. if s = ''5'' then Some 5 else None),
      directions_api = (\<lambda>r. \<lparr>status_code = 200,
         json = \<lparr>routes = [\<lparr>legs = [\<lparr>steps =
                   [\<lparr>distance_value = 80467 / 2, end_location = (1, 1)\<rparr>]\<rparr>]\<rparr>]\<rparr>\<rparr>),
      places_api = (\<lambda>n r. \<lparr>status_code = 200, json = [[''name'' \<mapsto> ''Cafe''], Map.empty]\<rparr>)\<rparr>
     ''key'' (Some ''Austin'') (Some ''Dallas'') (Some ''cafe'') (Some ''5'')))
   = [''Cafe'', ''No name available'']"
proof -
  let ?route = "\<lparr>routes = [\<lparr>legs = [\<lparr>steps =
                   [\<lparr>distance_value = 80467 / 2, end_location = (1, 1)\<rparr>]\<rparr>]\<rparr>]\<rparr>"
  let ?w = "\<lparr>stdin = [], float_of_string = (\<lambda>s. if s = ''5'' then Some 5 else None),
      directions_api = (\<lambda>r. \<lparr>status_code = 200, json = ?route\<rparr>),
      places_api = (\<lambda>n r. \<lparr>status_code = 200, json = [[''name'' \<mapsto> ''Cafe''], Map.empty]\<rparr>)\<rparr>"
  let ?ui = "\<lparr>ui_startloc = ''Austin'', ui_endloc = ''Dallas'', ui_keyword = ''cafe'',
              ui_distoffpath = 5\<rparr>"
  let ?R = "Route_init (ui_startloc ?ui) (ui_endloc ?ui)"
  let ?P = "\<lparr>poi_waypoints = waypoints (?R\<lparr>waypoints := [(1, 1)]\<rparr>), poi_api_key = ''key'',
             poi_keyword = ui_keyword ?ui,
             poi_distoffpath = binary64 (ui_distoffpath ?ui * binary64 (160934 / 100))\<rparr>"
  have h1: "collect_inputs ?w (Some ''Austin'') (Some ''Dallas'') (Some ''cafe'') (Some ''5'')
              = ([], Inr ?ui)"
    by (simp add: collect_inputs_def truthy_def float_def)
  have h2: "fetch_route ?w ?R ''key'' = ([Get (DirectionsGet ''Austin'' ''Dallas'' ''key'')], Some ?route)"
    by (simp add: fetch_route_def Route_init_def)
  have h3: "calculate_waypoints ?R ?route 25 = Inr (?R\<lparr>waypoints := [(1, 1)]\<rparr>)"
    by (rule scenario_waypoints)
  have h4: "search_waypoints ?w ?P = (fst (search_waypoints ?w ?P), snd (search_waypoints ?w ?P))"
    by simp
  from one_line_per_poi [OF h1 h2 h3 h4]
  show ?thesis by (simp add: search_waypoints_eq search_nearby_def)
qed

end
